theory Spec2Isabelle
  imports Main "HOL-Library.Word"
begin

unbundle bit_operations_syntax

section \<open>JavaScript values\<close>

text \<open>
  A JavaScript string is a sequence of UTF-16 code units. The literals of the
  sources that are plain ASCII are written through \<open>ascii\<close>; the Japanese
  literals are given by their code units.
\<close>

type_synonym jschar = "16 word"
type_synonym jsstring = "jschar list"

definition ascii :: "string \<Rightarrow> jsstring" where
  "ascii s = map (\<lambda>c. of_nat (of_char c)) s"

text \<open>The literals \<open>"\<dots>"\<close> of \<open>MAIN_GENRES\<close> and \<open>CARBS\<close> (menus.ts).\<close>

definition washoku :: jsstring where "washoku = [0x548C, 0x98DF]"
definition youshoku :: jsstring where "youshoku = [0x6D0B, 0x98DF]"
definition chuuka :: jsstring where "chuuka = [0x4E2D, 0x83EF]"
definition sonota :: jsstring where "sonota = [0x305D, 0x306E, 0x4ED6]"
definition dessert :: jsstring where "dessert = [0x30C7, 0x30B6, 0x30FC, 0x30C8]"

definition kome :: jsstring where "kome = [0x7C73]"
definition men :: jsstring where "men = [0x9EBA]"
definition dochirademonai :: jsstring where
  "dochirademonai = [0x3069, 0x3061, 0x3089, 0x3067, 0x3082, 0x306A, 0x3044]"

definition MAIN_GENRES :: "jsstring list" where
  "MAIN_GENRES = [washoku, youshoku, chuuka, sonota, dessert]"

definition CARBS :: "jsstring list" where
  "CARBS = [kome, men, dochirademonai]"

text \<open>
  \<open>throw new Error(msg)\<close>: the error carries its message. A value that may be
  \<open>null\<close> or \<open>undefined\<close> keeps the two apart.
\<close>

datatype error = Error jsstring

datatype 'a nullable = Null | Undefined | Val 'a

text \<open>\<open>!v\<close> for an optional string: \<open>undefined\<close> and the empty string are falsy.\<close>

definition falsy :: "jsstring option \<Rightarrow> bool" where
  "falsy v = (case v of None \<Rightarrow> True | Some s \<Rightarrow> s = [])"

section \<open>The data model\<close>

text \<open>
  \<open>interface Menu\<close> (menus.ts) and \<open>interface Filter\<close> (decision.ts). The
  TypeScript types \<open>MainGenre\<close>, \<open>Carb\<close> and \<open>Mode\<close> are unions of string
  literals: at run time the fields hold strings, and the code compares strings.
  An optional field is an \<open>option\<close>.
\<close>

record Menu =
  id_m :: jsstring
  name :: jsstring
  mainGenre :: jsstring
  carb :: jsstring

record Filter =
  mainGenre :: "jsstring option"
  carb :: "jsstring option"
  mode :: jsstring

section \<open>decision.ts\<close>

definition getCandidates :: "Menu list \<Rightarrow> Filter \<Rightarrow> error + Menu list" where
  "getCandidates menus fltr =
     (if mode fltr = ascii ''random'' then
        Inr (filter (\<lambda>m. Menu.mainGenre m \<noteq> dessert) menus)
      else if mode fltr = ascii ''carb'' then
        (case Filter.carb fltr of
           None \<Rightarrow> Inr []
         | Some target \<Rightarrow>
             if target = [] then Inr []
             else Inr (filter (\<lambda>m. Menu.mainGenre m \<noteq> dessert \<and>
                                   (Menu.carb m = target \<or> Menu.carb m = dochirademonai)) menus))
      else if mode fltr = ascii ''genre'' then
        (case Filter.mainGenre fltr of
           None \<Rightarrow> Inr []
         | Some genre \<Rightarrow>
             if genre = [] then Inr []
             else Inr (filter (\<lambda>m. Menu.mainGenre m = genre) menus))
      else if mode fltr = ascii ''dessert'' then
        Inr (filter (\<lambda>m. Menu.mainGenre m = dessert) menus)
      else Inl (Error (ascii ''Unknown mode: '' @ mode fltr)))"

text \<open>
  \<open>pickOne\<close> draws \<open>Math.random()\<close>, a double that is at least 0 and less than 1.
  The draw is the parameter \<open>r\<close>: the double \<open>mantissa r / 2 ^ exponent r\<close>.
  Every double of that range has this form with a mantissa below \<open>2 ^ 53\<close> and an
  exponent of at most 1074, and every such quotient below 1 is a double.
\<close>

record Draw =
  mantissa :: nat
  exponent :: nat

definition isDraw :: "Draw \<Rightarrow> bool" where
  "isDraw r \<longleftrightarrow> mantissa r < 2 ^ 53 \<and> mantissa r < 2 ^ exponent r \<and> exponent r \<le> 1074"

text \<open>
  \<open>Math.random() * candidates.length\<close> is a product of doubles (an array has
  fewer than \<open>2 ^ 32\<close> elements, so its length is a double): the exact product
  \<open>mantissa r * length / 2 ^ exponent r\<close>, rounded to the nearest double, ties to
  even. \<open>round53\<close> rounds the numerator to 53 significant bits; a numerator with
  more bits gives a product of at least \<open>2 ^ 53 / 2 ^ 1074\<close>, which is a normal
  double, and one with at most 53 bits is exact. \<open>Math.floor\<close> of the product is
  the division by \<open>2 ^ exponent r\<close>. Reading an array outside its range gives
  \<open>undefined\<close>.
\<close>

fun bitLength :: "nat \<Rightarrow> nat" where
  "bitLength n = (if n = 0 then 0 else Suc (bitLength (n div 2)))"

declare bitLength.simps [simp del]

definition round53 :: "nat \<Rightarrow> nat" where
  "round53 p =
     (let s = bitLength p - 53; q = p div 2 ^ s; rem = p mod 2 ^ s
      in if 2 ^ s < 2 * rem \<or> (2 * rem = 2 ^ s \<and> odd q) then (q + 1) * 2 ^ s else q * 2 ^ s)"

definition pickOne :: "Draw \<Rightarrow> Menu list \<Rightarrow> Menu nullable" where
  "pickOne r candidates =
     (if length candidates = 0 then Null
      else let idx = round53 (mantissa r * length candidates) div 2 ^ exponent r
           in if idx < length candidates then Val (candidates ! idx) else Undefined)"

record Decision =
  result :: "Menu nullable"
  candidatesCount :: nat

definition decideNext ::
  "Draw \<Rightarrow> Menu list \<Rightarrow> Filter \<Rightarrow> jsstring option \<Rightarrow> error + Decision" where
  "decideNext r menus fltr prevId =
     (case getCandidates menus fltr of
        Inl e \<Rightarrow> Inl e
      | Inr candidates \<Rightarrow>
          Inr \<lparr>result = pickOne r candidates, candidatesCount = length candidates\<rparr>)"

section \<open>menus.ts: helpers\<close>

text \<open>
  \<open>String.prototype.trim\<close> removes the white space and line terminators of
  ECMAScript from both ends.
\<close>

definition isWhiteSpace :: "jschar \<Rightarrow> bool" where
  "isWhiteSpace c =
     (c \<in> {0x09, 0x0A, 0x0B, 0x0C, 0x0D, 0x20, 0xA0, 0x1680,
           0x2028, 0x2029, 0x202F, 0x205F, 0x3000, 0xFEFF}
      \<or> (0x2000 \<le> c \<and> c \<le> 0x200A))"

definition trim :: "jsstring \<Rightarrow> jsstring" where
  "trim s = rev (dropWhile isWhiteSpace (rev (dropWhile isWhiteSpace s)))"

text \<open>\<open>xs.join(sep)\<close>.\<close>

fun join :: "jsstring \<Rightarrow> jsstring list \<Rightarrow> jsstring" where
  "join sep [] = []"
| "join sep [x] = x"
| "join sep (x # y # ys) = x @ sep @ join sep (y # ys)"

text \<open>\<open>xs[k]\<close>, which is \<open>undefined\<close> outside the array.\<close>

definition elemAt :: "'a list \<Rightarrow> nat \<Rightarrow> 'a option" where
  "elemAt xs k = (if k < length xs then Some (xs ! k) else None)"

text \<open>\<open>xs.findIndex(p)\<close>; \<open>None\<close> stands for \<open>-1\<close>.\<close>

fun findIndex :: "('a \<Rightarrow> bool) \<Rightarrow> 'a list \<Rightarrow> nat option" where
  "findIndex p [] = None"
| "findIndex p (x # xs) = (if p x then Some 0 else map_option Suc (findIndex p xs))"

text \<open>\<open>line.indexOf(c, i)\<close> for \<open>i\<close> within the line.\<close>

definition indexOf :: "jschar \<Rightarrow> jsstring \<Rightarrow> nat \<Rightarrow> nat option" where
  "indexOf c line i = map_option (\<lambda>k. i + k) (findIndex (\<lambda>x. x = c) (drop i line))"

text \<open>\<open>line.slice(i, j)\<close> and \<open>line.slice(i)\<close> for \<open>i \<le> j\<close> within the line.\<close>

definition slice :: "jsstring \<Rightarrow> nat \<Rightarrow> nat \<Rightarrow> jsstring" where
  "slice line i j = take (j - i) (drop i line)"

text \<open>\<open>raw.split(/\r?\n/)\<close>: the line ends are \<open>\n\<close> and \<open>\r\n\<close>.\<close>

fun splitLines :: "jsstring \<Rightarrow> jsstring list" where
  "splitLines [] = [[]]"
| "splitLines (c # cs) =
     (if c = 0x0A then [] # splitLines cs
      else (case cs of
              d # rest \<Rightarrow>
                if c = 0x0D \<and> d = 0x0A then [] # splitLines rest
                else (case splitLines cs of l # ls \<Rightarrow> (c # l) # ls | [] \<Rightarrow> [[c]])
            | [] \<Rightarrow> [[c]]))"

text \<open>The decimal text of a row number (\<open>`${rowNum}`\<close>).\<close>

fun showNat :: "nat \<Rightarrow> jsstring" where
  "showNat n = (if n < 10 then [of_nat (48 + n)]
                else showNat (n div 10) @ [of_nat (48 + n mod 10)])"

declare showNat.simps [simp del]

text \<open>\<open>`${v}`\<close> and \<open>v ?? ""\<close> for a value that may be \<open>undefined\<close>.\<close>

definition templ :: "jsstring option \<Rightarrow> jsstring" where
  "templ v = (case v of None \<Rightarrow> ascii ''undefined'' | Some s \<Rightarrow> s)"

definition orEmpty :: "jsstring option \<Rightarrow> jsstring" where
  "orEmpty v = (case v of None \<Rightarrow> [] | Some s \<Rightarrow> s)"

subsection \<open>parseCSVLine\<close>

text \<open>
  The inner loop of a quoted field, entered after the opening quote: it returns
  the value read and the index where it stopped.
\<close>

function quotedField :: "jsstring \<Rightarrow> nat \<Rightarrow> jsstring \<Rightarrow> jsstring \<times> nat" where
  "quotedField line i val =
     (if i < length line then
        (if line ! i = 0x22 then
           (if i + 1 < length line \<and> line ! (i + 1) = 0x22
            then quotedField line (i + 2) (val @ [0x22])
            else (val, i + 1))
         else quotedField line (i + 1) (val @ [line ! i]))
      else (val, i))"
  by pat_completeness auto
termination
  by (relation "measure (\<lambda>(line, i, val). length line - i)") auto

declare quotedField.simps [simp del]

lemma quotedField_advances: "i \<le> snd (quotedField line i val)"
proof (induction line i val rule: quotedField.induct)
  case (1 line i val)
  show ?case
  proof (cases "i < length line")
    case False
    then show ?thesis by (subst quotedField.simps) simp
  next
    case inside: True
    show ?thesis
    proof (cases "line ! i = 0x22")
      case False
      with inside "1.IH"(2) show ?thesis
        by (subst quotedField.simps) (simp add: Suc_leD)
    next
      case quote: True
      show ?thesis
      proof (cases "i + 1 < length line \<and> line ! (i + 1) = 0x22")
        case True
        with inside quote "1.IH"(1) have "i + 2 \<le> snd (quotedField line (i + 2) (val @ [0x22]))"
          by simp
        with True inside quote show ?thesis
          by (subst quotedField.simps) simp
      next
        case False
        with inside quote show ?thesis
          by (subst quotedField.simps) auto
      qed
    qed
  qed
qed

text \<open>The outer loop \<open>while (i <= len)\<close>, with the fields pushed so far.\<close>

function parseCSVLineFrom :: "jsstring \<Rightarrow> nat \<Rightarrow> jsstring list \<Rightarrow> jsstring list" where
  "parseCSVLineFrom line i flds =
     (if i \<le> length line then
        (if i = length line then flds @ [[]]
         else if line ! i = 0x22 then
           (case quotedField line (i + 1) [] of
              (val, j) \<Rightarrow>
                parseCSVLineFrom line
                  (if j < length line \<and> line ! j = 0x2C then j + 1 else j)
                  (flds @ [val]))
         else
           (case indexOf 0x2C line i of
              None \<Rightarrow> flds @ [drop i line]
            | Some nextComma \<Rightarrow>
                parseCSVLineFrom line (nextComma + 1) (flds @ [slice line i nextComma])))
      else flds)"
  by pat_completeness auto
termination
proof (relation "measure (\<lambda>(line, i, flds). length line + 1 - i)", goal_cases)
  case 1
  show ?case by simp
next
  case (2 line i flds val j)
  have "i + 1 \<le> snd (quotedField line (i + 1) [])" by (rule quotedField_advances)
  with 2 have "i + 1 \<le> j" by (metis snd_conv)
  with 2 show ?case by auto
next
  case (3 line i flds nextComma)
  then show ?case by (auto simp: indexOf_def)
qed

declare parseCSVLineFrom.simps [simp del]

definition parseCSVLine :: "jsstring \<Rightarrow> jsstring list" where
  "parseCSVLine line = parseCSVLineFrom line 0 []"

subsection \<open>Guard functions\<close>

definition isMainGenre :: "jsstring \<Rightarrow> bool" where
  "isMainGenre v = (v \<in> set MAIN_GENRES)"

definition isCarb :: "jsstring \<Rightarrow> bool" where
  "isCarb v = (v \<in> set CARBS)"


subsection \<open>stableId, the variant without Node's crypto\<close>

text \<open>
  \<open>Math.imul\<close>, \<open>^\<close> and \<open>>>>\<close> work on 32-bit integers: \<open>32 word\<close> with
  \<open>*\<close>, \<open>XOR\<close> and \<open>drop_bit\<close>. \<open>combined\<close> stays below \<open>2 ^ 53\<close>, so the
  arithmetic on doubles is exact and it is a natural number.
\<close>

fun mixLoop :: "jsstring \<Rightarrow> 32 word \<Rightarrow> 32 word \<Rightarrow> 32 word \<times> 32 word" where
  "mixLoop [] h1 h2 = (h1, h2)"
| "mixLoop (ch # str) h1 h2 =
     mixLoop str ((h1 XOR ucast ch) * 2654435761) ((h2 XOR ucast ch) * 1597334677)"

text \<open>\<open>n.toString(36)\<close> for a natural number, and \<open>s.padStart(w, c)\<close>.\<close>

definition digit36 :: "nat \<Rightarrow> jschar" where
  "digit36 d = (if d < 10 then of_nat (48 + d) else of_nat (87 + d))"

fun toString36 :: "nat \<Rightarrow> jsstring" where
  "toString36 n = (if n < 36 then [digit36 n]
                   else toString36 (n div 36) @ [digit36 (n mod 36)])"

declare toString36.simps [simp del]

definition padStart :: "nat \<Rightarrow> jschar \<Rightarrow> jsstring \<Rightarrow> jsstring" where
  "padStart w c s = replicate (w - length s) c @ s"

definition stableId :: "jsstring \<Rightarrow> jsstring \<Rightarrow> jsstring \<Rightarrow> jsstring" where
  "stableId nm genre crb =
     (case mixLoop (nm @ [0x09] @ genre @ [0x09] @ crb) 0xdeadbeef 0x41c6ce57 of
        (a1, a2) \<Rightarrow>
          let b1 = (a1 XOR drop_bit 16 a1) * 2246822507;
              h1 = b1 XOR ((a2 XOR drop_bit 13 a2) * 3266489909);
              b2 = (a2 XOR drop_bit 16 a2) * 2246822507;
              h2 = b2 XOR ((h1 XOR drop_bit 13 h1) * 3266489909);
              combined = 4294967296 * unat (2097151 AND h2) + unat h1
          in padStart 11 0x30 (toString36 combined))"

subsection \<open>stableId, the variant with SHA-256\<close>

text \<open>
  \<open>createHash("sha256").update(s).digest("hex")\<close> belongs to Node: \<open>update\<close>
  encodes the string as UTF-8 (a surrogate without its partner becomes U+FFFD),
  and the digest is that of FIPS 180-4, in lower-case hexadecimal.
\<close>

fun utf8 :: "jsstring \<Rightarrow> 8 word list" where
  "utf8 [] = []"
| "utf8 (c # cs) =
     (if c < 0x80 then ucast c # utf8 cs
      else if c < 0x800 then
        (0xC0 OR ucast (drop_bit 6 c)) # (0x80 OR ucast (c AND 0x3F)) # utf8 cs
      else if 0xD800 \<le> c \<and> c < 0xDC00 then
        (case cs of
           d # rest \<Rightarrow>
             if 0xDC00 \<le> d \<and> d < 0xE000 then
               (let cp = 0x10000 + push_bit 10 (ucast (c AND 0x3FF)) + ucast (d AND 0x3FF) :: 32 word
                in (0xF0 OR ucast (drop_bit 18 cp)) # (0x80 OR ucast (drop_bit 12 cp AND 0x3F)) #
                   (0x80 OR ucast (drop_bit 6 cp AND 0x3F)) # (0x80 OR ucast (cp AND 0x3F)) #
                   utf8 rest)
             else 0xEF # 0xBF # 0xBD # utf8 cs
         | [] \<Rightarrow> [0xEF, 0xBF, 0xBD])
      else if 0xDC00 \<le> c \<and> c < 0xE000 then 0xEF # 0xBF # 0xBD # utf8 cs
      else (0xE0 OR ucast (drop_bit 12 c)) # (0x80 OR ucast (drop_bit 6 c AND 0x3F)) #
           (0x80 OR ucast (c AND 0x3F)) # utf8 cs)"

definition rotr :: "nat \<Rightarrow> 32 word \<Rightarrow> 32 word" where
  "rotr n x = drop_bit n x OR push_bit (32 - n) x"

definition Ch :: "32 word \<Rightarrow> 32 word \<Rightarrow> 32 word \<Rightarrow> 32 word" where
  "Ch x y z = (x AND y) XOR (NOT x AND z)"

definition Maj :: "32 word \<Rightarrow> 32 word \<Rightarrow> 32 word \<Rightarrow> 32 word" where
  "Maj x y z = (x AND y) XOR (x AND z) XOR (y AND z)"

definition bigSigma0 :: "32 word \<Rightarrow> 32 word" where
  "bigSigma0 x = rotr 2 x XOR rotr 13 x XOR rotr 22 x"

definition bigSigma1 :: "32 word \<Rightarrow> 32 word" where
  "bigSigma1 x = rotr 6 x XOR rotr 11 x XOR rotr 25 x"

definition smallSigma0 :: "32 word \<Rightarrow> 32 word" where
  "smallSigma0 x = rotr 7 x XOR rotr 18 x XOR drop_bit 3 x"

definition smallSigma1 :: "32 word \<Rightarrow> 32 word" where
  "smallSigma1 x = rotr 17 x XOR rotr 19 x XOR drop_bit 10 x"

text \<open>The round constants and the initial hash value, in decimal.\<close>

definition sha256_K :: "32 word list" where
  "sha256_K =
    [1116352408, 1899447441, 3049323471, 3921009573, 961987163, 1508970993,
     2453635748, 2870763221, 3624381080, 310598401, 607225278, 1426881987,
     1925078388, 2162078206, 2614888103, 3248222580, 3835390401, 4022224774,
     264347078, 604807628, 770255983, 1249150122, 1555081692, 1996064986,
     2554220882, 2821834349, 2952996808, 3210313671, 3336571891, 3584528711,
     113926993, 338241895, 666307205, 773529912, 1294757372, 1396182291,
     1695183700, 1986661051, 2177026350, 2456956037, 2730485921, 2820302411,
     3259730800, 3345764771, 3516065817, 3600352804, 4094571909, 275423344,
     430227734, 506948616, 659060556, 883997877, 958139571, 1322822218,
     1537002063, 1747873779, 1955562222, 2024104815, 2227730452, 2361852424,
     2428436474, 2756734187, 3204031479, 3329325298]"

definition sha256_H0 :: "32 word list" where
  "sha256_H0 =
    [1779033703, 3144134277, 1013904242, 2773480762,
     1359893119, 2600822924, 528734635, 1541459225]"

text \<open>Padding to a multiple of 64 bytes, and the bytes read as big-endian words.\<close>

definition sha256_pad :: "8 word list \<Rightarrow> 8 word list" where
  "sha256_pad m =
     m @ [0x80] @ replicate ((119 - length m mod 64) mod 64) 0 @
     map (\<lambda>k. of_nat ((8 * length m) div 2 ^ (8 * (7 - k)))) [0..<8]"

fun bigEndianWords :: "8 word list \<Rightarrow> 32 word list" where
  "bigEndianWords (b0 # b1 # b2 # b3 # bs) =
     (push_bit 24 (ucast b0) OR push_bit 16 (ucast b1) OR push_bit 8 (ucast b2) OR ucast b3)
       # bigEndianWords bs"
| "bigEndianWords bs = []"

text \<open>The message schedule: \<open>n\<close> more words after those of \<open>w\<close>.\<close>

fun schedule :: "nat \<Rightarrow> 32 word list \<Rightarrow> 32 word list" where
  "schedule 0 w = w"
| "schedule (Suc n) w =
     schedule n (w @ [smallSigma1 (w ! (length w - 2)) + w ! (length w - 7) +
                      smallSigma0 (w ! (length w - 15)) + w ! (length w - 16)])"

fun sha256_round :: "32 word \<times> 32 word \<Rightarrow> 32 word list \<Rightarrow> 32 word list" where
  "sha256_round (k, w) [a, b, c, d, e, f, g, h] =
     (let t1 = h + bigSigma1 e + Ch e f g + k + w;
          t2 = bigSigma0 a + Maj a b c
      in [t1 + t2, a, b, c, d + t1, e, f, g])"
| "sha256_round kw s = s"

definition sha256_compress :: "32 word list \<Rightarrow> 32 word list \<Rightarrow> 32 word list" where
  "sha256_compress hs block =
     map2 (+) hs (fold sha256_round (zip sha256_K (schedule 48 block)) hs)"

fun sha256_blocks :: "32 word list \<Rightarrow> 32 word list \<Rightarrow> 32 word list" where
  "sha256_blocks hs ws =
     (if length ws < 16 then hs
      else sha256_blocks (sha256_compress hs (take 16 ws)) (drop 16 ws))"

declare sha256_blocks.simps [simp del]

definition hexDigit :: "nat \<Rightarrow> jschar" where
  "hexDigit d = (if d < 10 then of_nat (48 + d) else of_nat (87 + d))"

definition hex32 :: "32 word \<Rightarrow> jsstring" where
  "hex32 x = map (\<lambda>k. hexDigit (unat (drop_bit (4 * (7 - k)) x AND 0xF))) [0..<8]"

definition sha256_hex :: "jsstring \<Rightarrow> jsstring" where
  "sha256_hex s =
     concat (map hex32 (sha256_blocks sha256_H0 (bigEndianWords (sha256_pad (utf8 s)))))"

definition stableId_sha256 :: "jsstring \<Rightarrow> jsstring \<Rightarrow> jsstring \<Rightarrow> jsstring" where
  "stableId_sha256 nm genre crb = take 12 (sha256_hex (nm @ [0x09] @ genre @ [0x09] @ crb))"


section \<open>menus.ts: the loader\<close>

definition expectedHeader :: "jsstring list" where
  "expectedHeader = [ascii ''name'', ascii ''mainGenre'', ascii ''carb'']"

text \<open>The violations of one row, in the order in which the code pushes them.\<close>

definition rowErrors :: "jsstring option \<Rightarrow> jsstring option \<Rightarrow> jsstring list" where
  "rowErrors genre crb =
     (if \<not> isMainGenre (orEmpty genre)
      then [ascii ''mainGenre='' @ [0x22] @ templ genre @ [0x22] @ ascii '' is not one of ['' @
            join (ascii '','') MAIN_GENRES @ ascii '']'']
      else []) @
     (if \<not> isCarb (orEmpty crb)
      then [ascii ''carb='' @ [0x22] @ templ crb @ [0x22] @ ascii '' is not one of ['' @
            join (ascii '','') CARBS @ ascii '']'']
      else [])"

text \<open>
  The loop over the lines after the header, with the two arrays it pushes to.
  The two sources differ in \<open>stableId\<close> only, which is the parameter \<open>mkId\<close>.
  A row without violation has both fields defined, so \<open>orEmpty\<close> is their value
  where the record is built.
\<close>

function rowsLoop ::
  "(jsstring \<Rightarrow> jsstring \<Rightarrow> jsstring \<Rightarrow> jsstring) \<Rightarrow> jsstring list \<Rightarrow> nat \<Rightarrow>
     Menu list \<Rightarrow> jsstring list \<Rightarrow> Menu list \<times> jsstring list" where
  "rowsLoop mkId lines i menus errors =
     (if i < length lines then
        (let line = lines ! i; rowNum = i + 1 in
         if trim line = [] then rowsLoop mkId lines (i + 1) menus errors
         else
           (let cols = map trim (parseCSVLine line);
                nm = elemAt cols 0; genre = elemAt cols 1; crb = elemAt cols 2 in
            if falsy nm then rowsLoop mkId lines (i + 1) menus errors
            else
              (let rowErrs = rowErrors genre crb in
               if length rowErrs > 0 then
                 rowsLoop mkId lines (i + 1) menus
                   (errors @ [ascii ''Row '' @ showNat rowNum @ ascii '': '' @
                              join (ascii ''; '') rowErrs])
               else
                 rowsLoop mkId lines (i + 1)
                   (menus @ [\<lparr>id_m = mkId (orEmpty nm) (orEmpty genre) (orEmpty crb),
                              name = orEmpty nm,
                              mainGenre = orEmpty genre,
                              carb = orEmpty crb\<rparr>])
                   errors)))
      else (menus, errors))"
  by pat_completeness auto
termination
  by (relation "measure (\<lambda>(mkId, lines, i, menus, errors). length lines - i)") auto

declare rowsLoop.simps [simp del]

definition parseMenusWith ::
  "(jsstring \<Rightarrow> jsstring \<Rightarrow> jsstring \<Rightarrow> jsstring) \<Rightarrow> jsstring \<Rightarrow> error + Menu list" where
  "parseMenusWith mkId raw =
     (let lines = splitLines raw in
      case findIndex (\<lambda>l. trim l \<noteq> []) lines of
        None \<Rightarrow> Inl (Error (ascii ''menus.csv is empty or contains only blank lines.''))
      | Some headerIdx \<Rightarrow>
          (let header = map trim (parseCSVLine (lines ! headerIdx)) in
           if length header < length expectedHeader \<or>
              \<not> list_all (\<lambda>(i, h). elemAt header i = Some h) (enumerate 0 expectedHeader)
           then Inl (Error (ascii ''menus.csv: unexpected header. Expected ['' @
                            join (ascii '','') expectedHeader @ ascii ''] but got ['' @
                            join (ascii '','') header @ ascii '']''))
           else
             (case rowsLoop mkId lines (headerIdx + 1) [] [] of
                (menus, errors) \<Rightarrow>
                  if length errors > 0
                  then Inl (Error (ascii ''menus.csv validation failed:'' @ [0x0A] @
                                   join [0x0A] errors))
                  else Inr menus)))"

text \<open>
  \<open>parseMenusFromCSVText\<close> of the variant without Node's crypto, and the body of
  \<open>loadMenusFromPublicCSV\<close> of the variant with SHA-256, applied to the text of
  the file it reads.
\<close>

definition parseMenusFromCSVText :: "jsstring \<Rightarrow> error + Menu list" where
  "parseMenusFromCSVText raw = parseMenusWith stableId raw"

definition loadMenusFromPublicCSV :: "jsstring \<Rightarrow> error + Menu list" where
  "loadMenusFromPublicCSV raw = parseMenusWith stableId_sha256 raw"

section \<open>The rows as the specification describes them\<close>

text \<open>
  These definitions follow the words of the specification, not the loop: the
  trimmed fields of a line, the rows that are skipped (blank, or with an empty
  name), the rows with a field outside its closed vocabulary, the message of
  such a row with its 1-based line number, and the record of a valid row.
\<close>

definition trimmedFields :: "jsstring \<Rightarrow> jsstring list" where
  "trimmedFields line = map trim (parseCSVLine line)"

definition nameEmpty :: "jsstring \<Rightarrow> bool" where
  "nameEmpty line = falsy (elemAt (trimmedFields line) 0)"

definition rowSkipped :: "jsstring \<Rightarrow> bool" where
  "rowSkipped line = (trim line = [] \<or> nameEmpty line)"

definition fieldOf :: "jsstring \<Rightarrow> nat \<Rightarrow> jsstring" where
  "fieldOf line k = orEmpty (elemAt (trimmedFields line) k)"

definition rowInvalid :: "jsstring \<Rightarrow> bool" where
  "rowInvalid line =
     (\<not> rowSkipped line \<and> (\<not> isMainGenre (fieldOf line 1) \<or> \<not> isCarb (fieldOf line 2)))"

definition rowValid :: "jsstring \<Rightarrow> bool" where
  "rowValid line =
     (\<not> rowSkipped line \<and> isMainGenre (fieldOf line 1) \<and> isCarb (fieldOf line 2))"

definition rowMessage :: "nat \<Rightarrow> jsstring \<Rightarrow> jsstring" where
  "rowMessage k line =
     ascii ''Row '' @ showNat (k + 1) @ ascii '': '' @
     join (ascii ''; '') (rowErrors (elemAt (trimmedFields line) 1) (elemAt (trimmedFields line) 2))"

definition rowRecord :: "(jsstring \<Rightarrow> jsstring \<Rightarrow> jsstring \<Rightarrow> jsstring) \<Rightarrow> jsstring \<Rightarrow> Menu" where
  "rowRecord mkId line =
     \<lparr>id_m = mkId (fieldOf line 0) (fieldOf line 1) (fieldOf line 2),
      name = fieldOf line 0, mainGenre = fieldOf line 1, carb = fieldOf line 2\<rparr>"

definition invalidRows :: "jsstring list \<Rightarrow> nat \<Rightarrow> nat list" where
  "invalidRows lines h = filter (\<lambda>k. rowInvalid (lines ! k)) [h + 1..<length lines]"

definition validRows :: "jsstring list \<Rightarrow> nat \<Rightarrow> nat list" where
  "validRows lines h = filter (\<lambda>k. rowValid (lines ! k)) [h + 1..<length lines]"

text \<open>The two violations of a row, with the vocabularies written out.\<close>

definition genreViolation :: "jsstring option \<Rightarrow> jsstring" where
  "genreViolation genre =
     ascii ''mainGenre='' @ [0x22] @ templ genre @ [0x22] @ ascii '' is not one of ['' @
     washoku @ ascii '','' @ youshoku @ ascii '','' @ chuuka @ ascii '','' @ sonota @
     ascii '','' @ dessert @ ascii '']''"

definition carbViolation :: "jsstring option \<Rightarrow> jsstring" where
  "carbViolation crb =
     ascii ''carb='' @ [0x22] @ templ crb @ [0x22] @ ascii '' is not one of ['' @
     kome @ ascii '','' @ men @ ascii '','' @ dochirademonai @ ascii '']''"

text \<open>The end of the loader: what it throws or returns for the two arrays of the loop.\<close>

definition rowsOutcome :: "Menu list \<times> jsstring list \<Rightarrow> error + Menu list" where
  "rowsOutcome r =
     (case r of (menus, errors) \<Rightarrow>
        if errors \<noteq> []
        then Inl (Error (ascii ''menus.csv validation failed:'' @ [0x0A] @ join [0x0A] errors))
        else Inr menus)"

section \<open>Example data\<close>

text \<open>Three records: a curry (western, rice), a ramen (chinese, noodle), a pudding (dessert).\<close>

definition kare :: Menu where
  "kare = \<lparr>id_m = ascii ''11xef58qvsl'', name = [0x30AB, 0x30EC, 0x30FC],
            mainGenre = youshoku, carb = kome\<rparr>"

definition ramen :: Menu where
  "ramen = \<lparr>id_m = ascii ''r'', name = [0x30E9, 0x30FC, 0x30E1, 0x30F3],
            mainGenre = chuuka, carb = men\<rparr>"

definition purin :: Menu where
  "purin = \<lparr>id_m = ascii ''p'', name = [0x30D7, 0x30EA, 0x30F3],
              mainGenre = dessert, carb = dochirademonai\<rparr>"

text \<open>
  A catalog with two invalid rows (lines 2 and 4) around a row with a blank name;
  the lines of a catalog whose line 2 has a blank name and two fields outside the
  vocabularies; a catalog whose only row has a single field.
\<close>

definition catalogInvalid :: jsstring where
  "catalogInvalid =
     ascii ''name,mainGenre,carb'' @ [0x0A] @ ascii ''x,bad,'' @ kome @ [0x0A] @
     ascii '' ,bad,bad'' @ [0x0D, 0x0A] @ ascii ''y,q,r''"

definition catalogSkip :: "jsstring list" where
  "catalogSkip = [ascii ''name,mainGenre,carb'', ascii '' ,bad,bad'',
                  ascii ''x,'' @ washoku @ ascii '','' @ kome]"

definition catalogShort :: jsstring where
  "catalogShort = ascii ''name,mainGenre,carb'' @ [0x0A] @ ascii ''x''"

section \<open>Properties of the decision engine\<close>

lemmas genre_literals = washoku_def youshoku_def chuuka_def sonota_def dessert_def
  kome_def men_def dochirademonai_def

lemma mode_literals:
  "ascii ''carb'' \<noteq> ascii ''random''" "ascii ''genre'' \<noteq> ascii ''random''"
  "ascii ''dessert'' \<noteq> ascii ''random''" "ascii ''genre'' \<noteq> ascii ''carb''"
  "ascii ''dessert'' \<noteq> ascii ''carb''" "ascii ''dessert'' \<noteq> ascii ''genre''"
  by (simp_all add: ascii_def)

text \<open>
  C1. For a filter of one of the four recognised shapes, \<open>getCandidates\<close> returns
  the records that satisfy the shape's predicate, in the order of the input:
  random keeps the records whose genre is not dessert; carb with a target keeps
  those whose genre is not dessert and whose carb is the target or "either";
  genre keeps those of that genre; dessert keeps those whose genre is dessert.
\<close>

theorem getCandidates_recognized:
  "getCandidates menus \<lparr>mainGenre = g, carb = c, mode = ascii ''random''\<rparr>
     = Inr (filter (\<lambda>m. Menu.mainGenre m \<noteq> dessert) menus)
   \<and> (target \<noteq> [] \<longrightarrow>
        getCandidates menus \<lparr>mainGenre = g, carb = Some target, mode = ascii ''carb''\<rparr>
          = Inr (filter (\<lambda>m. Menu.mainGenre m \<noteq> dessert \<and>
                             (Menu.carb m = target \<or> Menu.carb m = dochirademonai)) menus))
   \<and> (genre \<noteq> [] \<longrightarrow>
        getCandidates menus \<lparr>mainGenre = Some genre, carb = c, mode = ascii ''genre''\<rparr>
          = Inr (filter (\<lambda>m. Menu.mainGenre m = genre) menus))
   \<and> getCandidates menus \<lparr>mainGenre = g, carb = c, mode = ascii ''dessert''\<rparr>
       = Inr (filter (\<lambda>m. Menu.mainGenre m = dessert) menus)"
  by (simp add: getCandidates_def mode_literals)

theorem getCandidates_recognized_witness:
  "kome \<noteq> [] \<and> youshoku \<noteq> []
   \<and> getCandidates [kare, ramen, purin]
        \<lparr>mainGenre = None, carb = None, mode = ascii ''random''\<rparr> = Inr [kare, ramen]
   \<and> getCandidates [kare, ramen, purin]
        \<lparr>mainGenre = None, carb = Some kome, mode = ascii ''carb''\<rparr> = Inr [kare]
   \<and> getCandidates [kare, ramen, purin]
        \<lparr>mainGenre = Some youshoku, carb = None, mode = ascii ''genre''\<rparr> = Inr [kare]
   \<and> getCandidates [kare, ramen, purin]
        \<lparr>mainGenre = None, carb = None, mode = ascii ''dessert''\<rparr> = Inr [purin]"
  using getCandidates_recognized [of "[kare, ramen, purin]" None None kome youshoku]
  by (simp add: kare_def ramen_def purin_def genre_literals)

text \<open>
  C2, as stated, fails: a carb filter without a target and a genre filter without
  a genre return the empty list, through the guards \<open>if (!target) return []\<close> and
  \<open>if (!genre) return []\<close>.
\<close>

theorem getCandidates_silent_empty_counterexample:
  "getCandidates [kare, ramen, purin] \<lparr>mainGenre = None, carb = None, mode = ascii ''carb''\<rparr>
     = Inr []
   \<and> getCandidates [kare, ramen, purin] \<lparr>mainGenre = None, carb = None, mode = ascii ''genre''\<rparr>
     = Inr []"
  by (simp add: getCandidates_def mode_literals)

text \<open>
  C2, amended. A filter whose mode is none of the four makes \<open>getCandidates\<close>
  throw \<open>Unknown mode\<close>; a carb filter whose target is missing or empty and a
  genre filter whose genre is missing or empty return the empty list, with no
  error.
\<close>

theorem getCandidates_unrecognized:
  "(mode fltr \<noteq> ascii ''random'' \<and> mode fltr \<noteq> ascii ''carb'' \<and>
    mode fltr \<noteq> ascii ''genre'' \<and> mode fltr \<noteq> ascii ''dessert'' \<longrightarrow>
      getCandidates menus fltr = Inl (Error (ascii ''Unknown mode: '' @ mode fltr)))
   \<and> (mode fltr = ascii ''carb'' \<and> falsy (Filter.carb fltr) \<longrightarrow>
        getCandidates menus fltr = Inr [])
   \<and> (mode fltr = ascii ''genre'' \<and> falsy (Filter.mainGenre fltr) \<longrightarrow>
        getCandidates menus fltr = Inr [])"
  by (auto simp: getCandidates_def falsy_def mode_literals split: option.splits)

theorem getCandidates_unrecognized_witness:
  "getCandidates [kare] \<lparr>mainGenre = None, carb = None, mode = ascii ''noodle''\<rparr>
     = Inl (Error (ascii ''Unknown mode: noodle''))
   \<and> getCandidates [kare] \<lparr>mainGenre = Some youshoku, carb = Some [], mode = ascii ''carb''\<rparr>
     = Inr []
   \<and> getCandidates [kare] \<lparr>mainGenre = None, carb = Some kome, mode = ascii ''genre''\<rparr>
     = Inr []"
  using getCandidates_unrecognized [of "\<lparr>mainGenre = None, carb = None, mode = ascii ''noodle''\<rparr>" "[kare]"]
    getCandidates_unrecognized [of "\<lparr>mainGenre = Some youshoku, carb = Some [], mode = ascii ''carb''\<rparr>" "[kare]"]
    getCandidates_unrecognized [of "\<lparr>mainGenre = None, carb = Some kome, mode = ascii ''genre''\<rparr>" "[kare]"]
  by (simp add: falsy_def ascii_def)

text \<open>
  The product of doubles stays below the length: a draw is at most
  \<open>1 - 1 / 2 ^ 53\<close>, so the exact product is below the midpoint between the
  length and the double before it, and rounding cannot reach the length.
\<close>

lemma bitLength_bounds: "0 < n \<Longrightarrow> 2 ^ (bitLength n - 1) \<le> n \<and> n < 2 ^ bitLength n"
proof (induction n rule: bitLength.induct)
  case (1 n)
  show ?case
  proof (cases "n div 2 = 0")
    case True
    with "1.prems" have "n = 1" by (simp add: div_eq_0_iff) 
    then show ?thesis by (simp add: bitLength.simps)
  next
    case False
    then have h: "0 < n div 2" by simp
    from "1.prems" have b: "bitLength n = Suc (bitLength (n div 2))"
      by (subst bitLength.simps) simp
    from h have pos: "0 < bitLength (n div 2)" by (subst bitLength.simps) simp
    from "1.IH" [OF _ h] "1.prems"
    have lo: "2 ^ (bitLength (n div 2) - 1) \<le> n div 2" and hi: "n div 2 < 2 ^ bitLength (n div 2)"
      by simp_all
    from pos have e: "(2::nat) ^ bitLength (n div 2) = 2 * 2 ^ (bitLength (n div 2) - 1)"
      by (cases "bitLength (n div 2)") simp_all
    from lo e have "2 ^ bitLength (n div 2) \<le> n" by linarith
    moreover from hi have "n < 2 * 2 ^ bitLength (n div 2)" by linarith
    ultimately show ?thesis by (simp add: b)
  qed
qed

lemma below_one_gap:
  assumes "m < 2 ^ 53" "m < 2 ^ k"
  shows "m * 2 ^ 53 + 2 ^ k \<le> 2 ^ 53 * (2 ^ k :: nat)"
proof (cases "k \<le> 53")
  case True
  then have "(2::nat) ^ k \<le> 2 ^ 53" by (intro power_increasing) simp_all
  moreover from assms(2) have "(m + 1) * 2 ^ 53 \<le> 2 ^ k * (2 ^ 53 :: nat)"
    by (intro mult_le_mono1) simp
  ultimately show ?thesis by (simp add: algebra_simps)
next
  case False
  then have "54 \<le> k" by simp
  then obtain j where k: "k = 54 + j" by (auto simp: le_iff_add)
  define t :: nat where "t = 2 ^ j"
  have t: "1 \<le> t" by (simp add: t_def)
  have K: "(2::nat) ^ k = 2 ^ 54 * t" by (simp add: k t_def power_add)
  from assms(1) t show ?thesis unfolding K by simp
qed

lemma round53_below:
  assumes "m < 2 ^ 53" "m < 2 ^ k" "0 < n"
  shows "round53 (m * n) < n * 2 ^ k"
proof -
  define p where "p = m * n"
  define s where "s = bitLength p - 53"
  define P :: nat where "P = 2 ^ s"
  define q where "q = p div P"
  define rem where "rem = p mod P"
  define X where "X = n * 2 ^ k"
  have a: "p = q * P + rem" by (simp add: q_def rem_def)
  from assms(2,3) have d: "p < X" unfolding p_def X_def by (simp add: mult.commute)
  define up where "up \<longleftrightarrow> P < 2 * rem \<or> (2 * rem = P \<and> odd q)"
  have rp: "round53 p = (if up then (q + 1) * P else q * P)"
    unfolding round53_def Let_def s_def [symmetric] P_def [symmetric] q_def [symmetric]
      rem_def [symmetric] up_def ..
  show ?thesis
  proof (cases up)
    case False
    with rp have "round53 p = q * P" by simp
    with a d show ?thesis unfolding p_def X_def by simp
  next
    case True
    with rp have r: "round53 p = q * P + P" by simp
    from True have b: "P \<le> 2 * rem" unfolding up_def by auto
    have s1: "0 < s"
    proof (rule ccontr)
      assume "\<not> 0 < s"
      then have "P = 1" by (simp add: P_def)
      then have "rem = 0" by (simp add: rem_def)
      with b \<open>P = 1\<close> show False by simp
    qed
    then have bl: "bitLength p = s + 53" by (simp add: s_def)
    then have "0 < p" by (cases "p = 0") (simp_all add: bitLength.simps)
    from bitLength_bounds [OF this] bl have "2 ^ (s + 52) \<le> p" by (simp add: add.commute)
    then have c: "P * 2 ^ 52 \<le> p" by (simp add: P_def power_add)
    from below_one_gap [OF assms(1,2)] have "(m * 2 ^ 53 + 2 ^ k) * n \<le> (2 ^ 53 * 2 ^ k) * n"
      by (rule mult_le_mono1)
    then have e: "p * 2 ^ 53 + X \<le> 2 ^ 53 * X"
      by (simp add: p_def X_def algebra_simps)
    have "q * P + P < X"
    proof (rule ccontr)
      assume "\<not> q * P + P < X"
      then have f: "X \<le> q * P + P" by simp
      define Y where "Y = q * P"
      from a b f have g: "2 * X \<le> 2 * p + P" unfolding Y_def [symmetric] by linarith
      from g e have "X \<le> 2 ^ 52 * P" by simp
      with c d show False by simp
    qed
    with r show ?thesis unfolding p_def X_def by simp
  qed
qed

text \<open>
  C8. When \<open>getCandidates\<close> returns the candidates, \<open>decideNext\<close> returns their
  number as \<open>candidatesCount\<close>, whether or not a record was picked; its result is
  \<open>null\<close> exactly when there is no candidate, and otherwise one of the
  candidates, for every double that \<open>Math.random\<close> can draw; \<open>pickOne\<close> of the
  empty list is \<open>null\<close>.
\<close>

theorem decideNext_count_and_pick:
  assumes "getCandidates menus fltr = Inr candidates" and "isDraw r"
  shows "\<exists>res. decideNext r menus fltr prevId
                 = Inr \<lparr>result = res, candidatesCount = length candidates\<rparr>
           \<and> (res = Null \<longleftrightarrow> length candidates = 0)
           \<and> (length candidates \<noteq> 0 \<longrightarrow> (\<exists>m \<in> set candidates. res = Val m))
           \<and> pickOne r [] = Null"
proof (cases "candidates = []")
  case True
  with assms(1) show ?thesis by (simp add: decideNext_def pickOne_def)
next
  case False
  then have n: "0 < length candidates" by simp
  from assms(2) have m: "mantissa r < 2 ^ 53" "mantissa r < 2 ^ exponent r"
    by (simp_all add: isDraw_def)
  from round53_below [OF m n]
  have idx: "round53 (mantissa r * length candidates) div 2 ^ exponent r < length candidates"
    by (simp add: less_mult_imp_div_less)
  with False
  have "pickOne r candidates
        = Val (candidates ! (round53 (mantissa r * length candidates) div 2 ^ exponent r))"
    by (simp add: pickOne_def Let_def)
  with idx False assms(1) show ?thesis
    by (auto simp: decideNext_def pickOne_def)
qed

text \<open>
  The draw \<open>3752999689475413 / 2 ^ 52\<close> with six candidates: the exact product is
  just below 5 and the product of doubles is 5, so the sixth candidate is picked.
\<close>

theorem decideNext_count_and_pick_witness:
  "getCandidates [kare, ramen, purin, kare, ramen, kare, ramen]
     \<lparr>mainGenre = None, carb = None, mode = ascii ''random''\<rparr>
     = Inr [kare, ramen, kare, ramen, kare, ramen]
   \<and> isDraw \<lparr>mantissa = 3752999689475413, exponent = 52\<rparr>
   \<and> round53 (3752999689475413 * 6) div 2 ^ 52 = 5
   \<and> decideNext \<lparr>mantissa = 3752999689475413, exponent = 52\<rparr>
        [kare, ramen, purin, kare, ramen, kare, ramen]
        \<lparr>mainGenre = None, carb = None, mode = ascii ''random''\<rparr> (Some (ascii ''p''))
       = Inr \<lparr>result = Val ramen, candidatesCount = 6\<rparr>"
proof -
  have c: "getCandidates [kare, ramen, purin, kare, ramen, kare, ramen]
             \<lparr>mainGenre = None, carb = None, mode = ascii ''random''\<rparr>
           = Inr [kare, ramen, kare, ramen, kare, ramen]"
    by (simp add: getCandidates_def kare_def ramen_def purin_def genre_literals)
  have d: "isDraw \<lparr>mantissa = 3752999689475413, exponent = 52\<rparr>"
    by (simp add: isDraw_def)
  have i: "round53 (3752999689475413 * 6) div 2 ^ 52 = 5"
    by (simp add: round53_def bitLength.simps Let_def)
  from decideNext_count_and_pick [OF c d, of "Some (ascii ''p'')"] c d i show ?thesis
    by (simp add: decideNext_def pickOne_def)
qed

text \<open>
  C9. The identity of the previous pick has no influence: with the same draw,
  \<open>decideNext\<close> gives the same outcome for any two values of \<open>prevId\<close>.
\<close>

theorem decideNext_ignores_prevId:
  "decideNext r menus fltr p1 = decideNext r menus fltr p2"
  by (simp add: decideNext_def)

section \<open>Properties of parseCSVLine\<close>

lemmas parseCSVLine_eval = parseCSVLine_def parseCSVLineFrom.simps quotedField.simps
  indexOf_def slice_def ascii_def


text \<open>
  C3. The line \<open>a,"b,c"\<close> should parse to the two fields \<open>a\<close> and \<open>b,c\<close>. The
  code returns three fields: after a closing quote at the end of the line the
  outer loop runs once more with \<open>i = len\<close> and pushes an empty field, exactly
  as it does for the line \<open>a,"b,c",\<close> that ends with a comma. An unquoted last
  field has no such extra field.
\<close>

theorem parseCSVLine_quoted_last_field:
  "parseCSVLine (ascii ''a,'' @ [0x22] @ ascii ''b,c'' @ [0x22])
     = [ascii ''a'', ascii ''b,c'', []]
   \<and> parseCSVLine (ascii ''a,'' @ [0x22] @ ascii ''b,c'' @ [0x22] @ ascii '','')
     = [ascii ''a'', ascii ''b,c'', []]
   \<and> parseCSVLine (ascii ''a,b,c'') = [ascii ''a'', ascii ''b'', ascii ''c'']"
  by (simp add: parseCSVLine_eval)

section \<open>Properties of the identifiers\<close>

lemma length_sha256_round: "length (sha256_round kw s) = length s"
  by (induction kw s rule: sha256_round.induct) (simp_all add: Let_def)

lemma length_fold_sha256_round: "length (fold sha256_round kws s) = length s"
  by (induction kws arbitrary: s) (simp_all add: length_sha256_round)

lemma length_sha256_compress: "length (sha256_compress hs block) = length hs"
  by (simp add: sha256_compress_def length_fold_sha256_round)

lemma length_sha256_blocks: "length (sha256_blocks hs ws) = length hs"
proof (induction hs ws rule: sha256_blocks.induct)
  case (1 hs ws)
  then show ?case
    by (subst sha256_blocks.simps) (simp add: length_sha256_compress)
qed

lemma length_concat_hex32: "length (concat (map hex32 xs)) = 8 * length xs"
  by (induction xs) (simp_all add: hex32_def)

lemma length_sha256_hex: "length (sha256_hex s) = 64"
  by (simp add: sha256_hex_def length_concat_hex32 length_sha256_blocks sha256_H0_def)

lemma length_stableId_sha256: "length (stableId_sha256 nm genre crb) = 12"
  by (simp add: stableId_sha256_def length_sha256_hex)

lemma length_toString36: "n < 36 ^ k \<Longrightarrow> 0 < k \<Longrightarrow> length (toString36 n) \<le> k"
proof (induction n arbitrary: k rule: toString36.induct)
  case (1 n)
  show ?case
  proof (cases "n < 36")
    case True
    with "1.prems" show ?thesis by (subst toString36.simps) simp
  next
    case False
    from "1.prems" obtain j where k: "k = Suc j" by (cases k) auto
    from False "1.prems" k have j: "0 < j" by (cases j) auto
    from "1.prems" k have "n div 36 < 36 ^ j"
      by (simp add: less_mult_imp_div_less mult.commute)
    with "1.IH" [OF False _ j] have "length (toString36 (n div 36)) \<le> j" by simp
    with False k show ?thesis by (subst toString36.simps) simp
  qed
qed

lemma combined_bound:
  "4294967296 * unat (2097151 AND (h2 :: 32 word)) + unat (h1 :: 32 word) < 36 ^ 11"
proof -
  have "2097151 AND h2 \<le> 2097151" by (rule word_and_le2)
  then have "unat (2097151 AND h2) \<le> unat (2097151 :: 32 word)" by (simp add: word_le_nat_alt)
  then have a: "unat (2097151 AND h2) \<le> 2097151" by simp
  have "unat h1 < 2 ^ 32" using unsigned_less [of h1] by simp
  then have b: "unat h1 < 4294967296" by simp
  from a b show ?thesis by simp
qed

lemma length_stableId: "length (stableId nm genre crb) = 11"
proof -
  have pad: "length (padStart 11 0x30 (toString36 n)) = 11" if "n < 36 ^ 11" for n
    using length_toString36 [OF that] by (simp add: padStart_def)
  have *: "length (padStart 11 0x30
             (toString36 (4294967296 * unat (2097151 AND h2) + unat h1))) = 11"
    for h1 h2 :: "32 word"
    by (rule pad) (rule combined_bound)
  show ?thesis
    by (cases "mixLoop (nm @ [0x09] @ genre @ [0x09] @ crb) 0xdeadbeef 0x41c6ce57")
      (simp only: stableId_def Let_def prod.case *)
qed

text \<open>The identifier without Node's crypto, computed for one triple.\<close>

lemma mixLoop_example:
  "mixLoop (ascii ''a'' @ [0x09] @ washoku @ [0x09] @ kome) 0xdeadbeef 0x41c6ce57
     = (4070732702, 1544277322)"
  by (simp add: ascii_def washoku_def kome_def)

lemma toString36_example: "toString36 7088631919980848 = ascii ''1xspkjq3qy8''"
  by (simp add: toString36.simps digit36_def ascii_def)

lemma stableId_example: "stableId (ascii ''a'') washoku kome = ascii ''1xspkjq3qy8''"
  unfolding stableId_def mixLoop_example prod.case Let_def
  by (simp add: toString36_example padStart_def ascii_def)

text \<open>
  C4, as stated, fails: for the name \<open>a\<close>, the genre \<open>washoku\<close> and the carb
  \<open>kome\<close> the variant without Node's crypto gives the eleven characters
  \<open>1xspkjq3qy8\<close>, and the variant with SHA-256 gives twelve characters
  (\<open>2f609de3fdc8\<close>), so the two identifiers differ.
\<close>

theorem stableId_variants_differ_counterexample:
  "stableId (ascii ''a'') washoku kome = ascii ''1xspkjq3qy8''
   \<and> length (stableId_sha256 (ascii ''a'') washoku kome) = 12
   \<and> stableId_sha256 (ascii ''a'') washoku kome \<noteq> stableId (ascii ''a'') washoku kome"
proof -
  have "stableId_sha256 (ascii ''a'') washoku kome \<noteq> stableId (ascii ''a'') washoku kome"
  proof
    assume "stableId_sha256 (ascii ''a'') washoku kome = stableId (ascii ''a'') washoku kome"
    then have "length (stableId_sha256 (ascii ''a'') washoku kome)
               = length (stableId (ascii ''a'') washoku kome)" by simp
    then show False by (simp add: length_stableId length_stableId_sha256)
  qed
  with stableId_example length_stableId_sha256 show ?thesis by simp
qed

section \<open>Properties of the loader\<close>

lemma rowErrors_empty_iff:
  "rowErrors genre crb = [] \<longleftrightarrow> isMainGenre (orEmpty genre) \<and> isCarb (orEmpty crb)"
  by (simp add: rowErrors_def)

lemma rowsLoop_step:
  assumes "i < length lines"
  shows "rowsLoop mkId lines i menus errors =
     (if rowSkipped (lines ! i) then rowsLoop mkId lines (Suc i) menus errors
      else if rowInvalid (lines ! i)
        then rowsLoop mkId lines (Suc i) menus (errors @ [rowMessage i (lines ! i)])
        else rowsLoop mkId lines (Suc i) (menus @ [rowRecord mkId (lines ! i)]) errors)"
  using assms
  by (subst rowsLoop.simps)
    (simp add: Let_def rowSkipped_def nameEmpty_def rowInvalid_def rowMessage_def rowRecord_def
      trimmedFields_def fieldOf_def rowErrors_empty_iff)

lemma rowsLoop_done: "\<not> i < length lines \<Longrightarrow> rowsLoop mkId lines i menus errors = (menus, errors)"
  by (subst rowsLoop.simps) simp

lemma rowValid_iff: "rowValid line \<longleftrightarrow> \<not> rowSkipped line \<and> \<not> rowInvalid line"
  by (auto simp: rowValid_def rowInvalid_def)

lemma rowsLoop_rows:
  "rowsLoop mkId lines i menus errors =
     (menus @ map (\<lambda>k. rowRecord mkId (lines ! k)) (filter (\<lambda>k. rowValid (lines ! k)) [i..<length lines]),
      errors @ map (\<lambda>k. rowMessage k (lines ! k)) (filter (\<lambda>k. rowInvalid (lines ! k)) [i..<length lines]))"
proof (induction n \<equiv> "length lines - i" arbitrary: i menus errors)
  case 0
  then show ?case by (simp add: rowsLoop_done)
next
  case (Suc n)
  then have i: "i < length lines" and n: "n = length lines - Suc i" by simp_all
  from i have upt: "[i..<length lines] = i # [Suc i..<length lines]" by (rule upt_conv_Cons)
  show ?case
    unfolding rowsLoop_step [OF i] upt Suc.hyps(1) [OF n]
    by (auto simp: rowValid_iff rowInvalid_def)
qed

lemma findIndex_None: "(\<forall>x \<in> set xs. \<not> p x) \<Longrightarrow> findIndex p xs = None"
  by (induction xs) simp_all

lemma findIndex_first:
  "h < length xs \<Longrightarrow> p (xs ! h) \<Longrightarrow> (\<forall>k<h. \<not> p (xs ! k)) \<Longrightarrow> findIndex p xs = Some h"
proof (induction xs arbitrary: h)
  case Nil
  then show ?case by simp
next
  case (Cons x xs)
  show ?case
  proof (cases h)
    case 0
    with Cons.prems show ?thesis by simp
  next
    case (Suc j)
    with Cons.prems have "\<not> p x" by auto
    moreover from Suc Cons.prems have "findIndex p xs = Some j"
      by (intro Cons.IH) auto
    ultimately show ?thesis using Suc by simp
  qed
qed

lemma findIndex_Some:
  "findIndex p xs = Some h \<Longrightarrow> h < length xs \<and> p (xs ! h) \<and> (\<forall>k<h. \<not> p (xs ! k))"
proof (induction xs arbitrary: h)
  case Nil
  then show ?case by simp
next
  case (Cons x xs)
  show ?case
  proof (cases "p x")
    case True
    with Cons.prems show ?thesis by simp
  next
    case False
    with Cons.prems obtain j where j: "findIndex p xs = Some j" "h = Suc j" by auto
    from Cons.IH [OF j(1)] False j(2) show ?thesis
      by (auto simp: less_Suc_eq_0_disj)
  qed
qed

lemma header_check:
  "(length header < length expectedHeader \<or>
    \<not> list_all (\<lambda>(i, h). elemAt header i = Some h) (enumerate 0 expectedHeader))
   \<longleftrightarrow> take 3 header \<noteq> expectedHeader"
proof (cases header)
  case Nil
  then show ?thesis by (simp add: expectedHeader_def)
next
  case c1: (Cons a l1)
  show ?thesis
  proof (cases l1)
    case Nil
    with c1 show ?thesis by (simp add: expectedHeader_def)
  next
    case c2: (Cons b l2)
    show ?thesis
    proof (cases l2)
      case Nil
      with c1 c2 show ?thesis by (simp add: expectedHeader_def)
    next
      case (Cons c l3)
      with c1 c2 show ?thesis by (auto simp: expectedHeader_def elemAt_def)
    qed
  qed
qed

lemma join_expectedHeader: "join (ascii '','') expectedHeader = ascii ''name,mainGenre,carb''"
  by (simp add: expectedHeader_def ascii_def)

lemma parseMenusWith_header:
  "parseMenusWith mkId raw =
     (case findIndex (\<lambda>l. trim l \<noteq> []) (splitLines raw) of
        None \<Rightarrow> Inl (Error (ascii ''menus.csv is empty or contains only blank lines.''))
      | Some h \<Rightarrow>
          if take 3 (trimmedFields (splitLines raw ! h)) \<noteq> expectedHeader
          then Inl (Error (ascii ''menus.csv: unexpected header. Expected [name,mainGenre,carb] but got ['' @
                           join (ascii '','') (trimmedFields (splitLines raw ! h)) @ ascii '']''))
          else rowsOutcome (rowsLoop mkId (splitLines raw) (h + 1) [] []))"
  unfolding parseMenusWith_def Let_def header_check trimmedFields_def [symmetric]
    join_expectedHeader rowsOutcome_def
  by (simp add: ascii_def split: option.splits)

lemma rowsOutcome_rows:
  "rowsOutcome (rowsLoop mkId lines (h + 1) [] []) =
     (if invalidRows lines h = []
      then Inr (map (\<lambda>k. rowRecord mkId (lines ! k)) (validRows lines h))
      else Inl (Error (ascii ''menus.csv validation failed:'' @ [0x0A] @
                       join [0x0A] (map (\<lambda>k. rowMessage k (lines ! k)) (invalidRows lines h)))))"
  by (simp add: rowsLoop_rows rowsOutcome_def invalidRows_def validRows_def)

lemma rowErrors_violations:
  "rowErrors genre crb =
     (if isMainGenre (orEmpty genre) then [] else [genreViolation genre]) @
     (if isCarb (orEmpty crb) then [] else [carbViolation crb])"
  by (simp add: rowErrors_def genreViolation_def carbViolation_def MAIN_GENRES_def CARBS_def)

lemma rowMessage_violations:
  "rowMessage k line =
     ascii ''Row '' @ showNat (k + 1) @ ascii '': '' @
     join (ascii ''; '')
       ((if isMainGenre (fieldOf line 1) then []
         else [genreViolation (elemAt (trimmedFields line) 1)]) @
        (if isCarb (fieldOf line 2) then []
         else [carbViolation (elemAt (trimmedFields line) 2)]))"
  by (simp add: rowMessage_def rowErrors_violations fieldOf_def)

lemmas row_eval = rowInvalid_def rowValid_def rowSkipped_def nameEmpty_def fieldOf_def elemAt_def
  falsy_def orEmpty_def isMainGenre_def isCarb_def MAIN_GENRES_def CARBS_def

lemmas text_eval = ascii_def trim_def isWhiteSpace_def trimmedFields_def parseCSVLine_eval
  expectedHeader_def genre_literals

lemma splitLines_catalogInvalid:
  "splitLines catalogInvalid =
     [ascii ''name,mainGenre,carb'', ascii ''x,bad,'' @ kome, ascii '' ,bad,bad'', ascii ''y,q,r'']"
  by (simp add: catalogInvalid_def ascii_def kome_def)

lemma rows_catalogInvalid:
  "invalidRows (splitLines catalogInvalid) 0 = [1, 3]"
  unfolding splitLines_catalogInvalid invalidRows_def
  by (simp add: upt_rec rowInvalid_def rowSkipped_def nameEmpty_def fieldOf_def elemAt_def
      falsy_def orEmpty_def isMainGenre_def isCarb_def MAIN_GENRES_def CARBS_def text_eval)

lemma rowsLoop_update_skipped:
  assumes "i < length lines" "rowSkipped (lines ! i)" "rowSkipped other"
  shows "rowsLoop mkId (lines[i := other]) k menus errors = rowsLoop mkId lines k menus errors"
proof -
  have v: "filter (\<lambda>j. rowValid (lines[i := other] ! j)) [k..<length lines]
         = filter (\<lambda>j. rowValid (lines ! j)) [k..<length lines]"
    using assms by (intro filter_cong) (auto simp: nth_list_update rowValid_def)
  have b: "filter (\<lambda>j. rowInvalid (lines[i := other] ! j)) [k..<length lines]
         = filter (\<lambda>j. rowInvalid (lines ! j)) [k..<length lines]"
    using assms by (intro filter_cong) (auto simp: nth_list_update rowInvalid_def)
  have "map (\<lambda>j. rowRecord mkId (lines[i := other] ! j)) (filter (\<lambda>j. rowValid (lines ! j)) [k..<length lines])
      = map (\<lambda>j. rowRecord mkId (lines ! j)) (filter (\<lambda>j. rowValid (lines ! j)) [k..<length lines])"
    using assms by (intro map_cong) (auto simp: nth_list_update rowValid_def)
  moreover
  have "map (\<lambda>j. rowMessage j (lines[i := other] ! j)) (filter (\<lambda>j. rowInvalid (lines ! j)) [k..<length lines])
      = map (\<lambda>j. rowMessage j (lines ! j)) (filter (\<lambda>j. rowInvalid (lines ! j)) [k..<length lines])"
    using assms by (intro map_cong) (auto simp: nth_list_update rowInvalid_def)
  ultimately show ?thesis
    by (simp add: rowsLoop_rows v b)
qed

lemma empty_outside_vocabularies: "\<not> isMainGenre [] \<and> \<not> isCarb []"
  by (simp add: isMainGenre_def isCarb_def MAIN_GENRES_def CARBS_def genre_literals)

lemma strip_rowRecord:
  "(rowRecord mkId line)\<lparr>id_m := []\<rparr> = (rowRecord mkId' line)\<lparr>id_m := []\<rparr>"
  by (simp add: rowRecord_def)

lemma parseMenusWith_up_to_ids:
  "map_sum id (map (\<lambda>m. m\<lparr>id_m := []\<rparr>)) (parseMenusWith mkId raw)
   = map_sum id (map (\<lambda>m. m\<lparr>id_m := []\<rparr>)) (parseMenusWith mkId' raw)"
  unfolding parseMenusWith_header rowsOutcome_rows
  by (simp add: strip_rowRecord [of mkId _ mkId'] split: option.splits)

text \<open>
  C4, amended. The two variants of \<open>stableId\<close> never give the same identifier:
  the variant with SHA-256 renders twelve characters and the other eleven, for
  every triple. The two loaders parse the same text to the same outcome apart
  from the identifiers: the same error, or record lists that agree in name,
  mainGenre and carb.
\<close>

theorem stableId_variants_never_agree:
  "length (stableId_sha256 nm genre crb) = 12 \<and> length (stableId nm genre crb) = 11
   \<and> stableId_sha256 nm genre crb \<noteq> stableId nm genre crb
   \<and> map_sum id (map (\<lambda>m. m\<lparr>id_m := []\<rparr>)) (loadMenusFromPublicCSV raw)
       = map_sum id (map (\<lambda>m. m\<lparr>id_m := []\<rparr>)) (parseMenusFromCSVText raw)"
proof -
  have "stableId_sha256 nm genre crb \<noteq> stableId nm genre crb"
  proof
    assume "stableId_sha256 nm genre crb = stableId nm genre crb"
    then have "length (stableId_sha256 nm genre crb) = length (stableId nm genre crb)" by simp
    then show False by (simp add: length_stableId length_stableId_sha256)
  qed
  then show ?thesis
    unfolding loadMenusFromPublicCSV_def parseMenusFromCSVText_def
    using parseMenusWith_up_to_ids [of stableId_sha256 raw stableId]
    by (simp add: length_stableId length_stableId_sha256)
qed

text \<open>
  C5. With a valid header, the loaders fail exactly when some data row with a
  name has a mainGenre or a carb outside its vocabulary; the message then holds
  one line for each such row, in order, made of the 1-based number of the line
  and of every violation of the row (mainGenre first, then carb), and no record
  list is returned. With no such row the loaders return the records of the valid
  rows, in order, which may be none.
\<close>

theorem validation_failure_accumulates:
  assumes "findIndex (\<lambda>l. trim l \<noteq> []) (splitLines raw) = Some h"
    and "take 3 (trimmedFields (splitLines raw ! h)) = expectedHeader"
  shows "parseMenusFromCSVText raw =
           (if invalidRows (splitLines raw) h = []
            then Inr (map (\<lambda>k. rowRecord stableId (splitLines raw ! k)) (validRows (splitLines raw) h))
            else Inl (Error (ascii ''menus.csv validation failed:'' @ [0x0A] @
                   join [0x0A] (map (\<lambda>k. rowMessage k (splitLines raw ! k))
                                    (invalidRows (splitLines raw) h)))))
       \<and> loadMenusFromPublicCSV raw =
           (if invalidRows (splitLines raw) h = []
            then Inr (map (\<lambda>k. rowRecord stableId_sha256 (splitLines raw ! k))
                          (validRows (splitLines raw) h))
            else Inl (Error (ascii ''menus.csv validation failed:'' @ [0x0A] @
                   join [0x0A] (map (\<lambda>k. rowMessage k (splitLines raw ! k))
                                    (invalidRows (splitLines raw) h)))))
       \<and> rowMessage k line =
           ascii ''Row '' @ showNat (k + 1) @ ascii '': '' @
           join (ascii ''; '')
             ((if isMainGenre (fieldOf line 1) then []
               else [genreViolation (elemAt (trimmedFields line) 1)]) @
              (if isCarb (fieldOf line 2) then []
               else [carbViolation (elemAt (trimmedFields line) 2)]))"
proof -
  have a: "parseMenusWith mkId raw = rowsOutcome (rowsLoop mkId (splitLines raw) (h + 1) [] [])"
    for mkId
    unfolding parseMenusWith_header assms(1) using assms(2) by simp
  show ?thesis
    unfolding parseMenusFromCSVText_def loadMenusFromPublicCSV_def a rowsOutcome_rows
    using rowMessage_violations [of k line] by simp
qed

theorem validation_failure_accumulates_witness:
  "findIndex (\<lambda>l. trim l \<noteq> []) (splitLines catalogInvalid) = Some 0
   \<and> take 3 (trimmedFields (splitLines catalogInvalid ! 0)) = expectedHeader
   \<and> invalidRows (splitLines catalogInvalid) 0 = [1, 3]
   \<and> parseMenusFromCSVText catalogInvalid =
       Inl (Error (ascii ''menus.csv validation failed:'' @ [0x0A] @
                   ascii ''Row 2: '' @ genreViolation (Some (ascii ''bad'')) @ [0x0A] @
                   ascii ''Row 4: '' @ genreViolation (Some (ascii ''q'')) @ ascii ''; '' @
                   carbViolation (Some (ascii ''r''))))"
proof -
  have h: "findIndex (\<lambda>l. trim l \<noteq> []) (splitLines catalogInvalid) = Some 0"
    unfolding splitLines_catalogInvalid by (simp add: text_eval)
  have e: "take 3 (trimmedFields (splitLines catalogInvalid ! 0)) = expectedHeader"
    unfolding splitLines_catalogInvalid by (simp add: text_eval)
  note t = validation_failure_accumulates [OF h e]
  have m1: "rowMessage 1 (splitLines catalogInvalid ! 1)
            = ascii ''Row 2: '' @ genreViolation (Some (ascii ''bad''))"
    unfolding t [THEN conjunct2, THEN conjunct2] splitLines_catalogInvalid
    by (simp add: showNat.simps fieldOf_def elemAt_def orEmpty_def isMainGenre_def isCarb_def
        MAIN_GENRES_def CARBS_def text_eval)
  have m3: "rowMessage 3 (splitLines catalogInvalid ! 3)
            = ascii ''Row 4: '' @ genreViolation (Some (ascii ''q'')) @ ascii ''; '' @
              carbViolation (Some (ascii ''r''))"
    unfolding t [THEN conjunct2, THEN conjunct2] splitLines_catalogInvalid
    by (simp add: showNat.simps fieldOf_def elemAt_def orEmpty_def isMainGenre_def isCarb_def
        MAIN_GENRES_def CARBS_def text_eval)
  from t [THEN conjunct1] have "parseMenusFromCSVText catalogInvalid =
       Inl (Error (ascii ''menus.csv validation failed:'' @ [0x0A] @
                   join [0x0A] [rowMessage 1 (splitLines catalogInvalid ! 1),
                                rowMessage 3 (splitLines catalogInvalid ! 3)]))"
    by (simp add: rows_catalogInvalid)
  then have "parseMenusFromCSVText catalogInvalid =
       Inl (Error (ascii ''menus.csv validation failed:'' @ [0x0A] @
                   ascii ''Row 2: '' @ genreViolation (Some (ascii ''bad'')) @ [0x0A] @
                   ascii ''Row 4: '' @ genreViolation (Some (ascii ''q'')) @ ascii ''; '' @
                   carbViolation (Some (ascii ''r''))))"
    unfolding m1 m3 by simp
  with h e rows_catalogInvalid show ?thesis by simp
qed

text \<open>
  C6. The first line that is not blank is the header, whatever the number of
  blank lines before it. Without any such line parsing fails with the message
  of an empty catalog; when the first three trimmed fields of the header are not
  name, mainGenre, carb, parsing fails with a message that gives the expected
  and the actual header; otherwise the header is accepted, whatever fields
  follow the first three, and the outcome is that of the data rows.
\<close>

theorem header_rule:
  "((\<forall>l \<in> set (splitLines raw). trim l = []) \<longrightarrow>
      parseMenusFromCSVText raw
        = Inl (Error (ascii ''menus.csv is empty or contains only blank lines.'')))
   \<and> (h < length (splitLines raw) \<and> trim (splitLines raw ! h) \<noteq> [] \<and>
       (\<forall>k<h. trim (splitLines raw ! k) = []) \<longrightarrow>
        (if take 3 (trimmedFields (splitLines raw ! h)) = expectedHeader
         then parseMenusFromCSVText raw
                = rowsOutcome (rowsLoop stableId (splitLines raw) (h + 1) [] [])
         else parseMenusFromCSVText raw
                = Inl (Error (ascii ''menus.csv: unexpected header. Expected [name,mainGenre,carb] but got ['' @
                              join (ascii '','') (trimmedFields (splitLines raw ! h)) @ ascii '']''))))"
proof (intro conjI impI)
  assume "\<forall>l \<in> set (splitLines raw). trim l = []"
  then have "findIndex (\<lambda>l. trim l \<noteq> []) (splitLines raw) = None"
    by (intro findIndex_None) simp
  then show "parseMenusFromCSVText raw
        = Inl (Error (ascii ''menus.csv is empty or contains only blank lines.''))"
    by (simp add: parseMenusFromCSVText_def parseMenusWith_header)
next
  assume "h < length (splitLines raw) \<and> trim (splitLines raw ! h) \<noteq> [] \<and>
       (\<forall>k<h. trim (splitLines raw ! k) = [])"
  then have "findIndex (\<lambda>l. trim l \<noteq> []) (splitLines raw) = Some h"
    by (intro findIndex_first) simp_all
  then show "if take 3 (trimmedFields (splitLines raw ! h)) = expectedHeader
         then parseMenusFromCSVText raw
                = rowsOutcome (rowsLoop stableId (splitLines raw) (h + 1) [] [])
         else parseMenusFromCSVText raw
                = Inl (Error (ascii ''menus.csv: unexpected header. Expected [name,mainGenre,carb] but got ['' @
                              join (ascii '','') (trimmedFields (splitLines raw ! h)) @ ascii '']''))"
    by (simp add: parseMenusFromCSVText_def parseMenusWith_header)
qed

theorem header_rule_witness:
  "splitLines (ascii ''  '' @ [0x0A]) = [ascii ''  '', []] \<and> trim (ascii ''  '') = []
   \<and> parseMenusFromCSVText (ascii ''  '' @ [0x0A])
       = Inl (Error (ascii ''menus.csv is empty or contains only blank lines.''))
   \<and> parseMenusFromCSVText (ascii ''name,mainGenre'')
       = Inl (Error (ascii ''menus.csv: unexpected header. Expected [name,mainGenre,carb] but got [name,mainGenre]''))
   \<and> splitLines ([0x0A, 0x0A, 0x0A] @ ascii ''name,mainGenre,carb'')
       = [[], [], [], ascii ''name,mainGenre,carb'']
   \<and> parseMenusFromCSVText ([0x0A, 0x0A, 0x0A] @ ascii ''name,mainGenre,carb'') = Inr []
   \<and> parseMenusFromCSVText (ascii ''name, mainGenre ,carb,note'') = Inr []"
proof -
  have s1: "splitLines (ascii ''  '' @ [0x0A]) = [ascii ''  '', []]"
    by (simp add: ascii_def)
  have t1: "trim (ascii ''  '') = []" "trim [] = []"
    by (simp_all add: text_eval)
  from s1 t1 have b: "\<forall>l \<in> set (splitLines (ascii ''  '' @ [0x0A])). trim l = []" by simp
  from header_rule [of "ascii ''  '' @ [0x0A]" 0] b
  have r1: "parseMenusFromCSVText (ascii ''  '' @ [0x0A])
       = Inl (Error (ascii ''menus.csv is empty or contains only blank lines.''))" by blast
  have s2: "splitLines (ascii ''name,mainGenre'') = [ascii ''name,mainGenre'']"
    by (simp add: ascii_def)
  have f2: "trimmedFields (ascii ''name,mainGenre'') = [ascii ''name'', ascii ''mainGenre'']"
    by (simp add: text_eval)
  have "trim (ascii ''name,mainGenre'') \<noteq> []" by (simp add: text_eval)
  with header_rule [of "ascii ''name,mainGenre''" 0]
  have r2: "parseMenusFromCSVText (ascii ''name,mainGenre'')
       = Inl (Error (ascii ''menus.csv: unexpected header. Expected [name,mainGenre,carb] but got [name,mainGenre]''))"
    unfolding s2 by (simp add: f2 expectedHeader_def) (simp add: ascii_def)
  have s3: "splitLines ([0x0A, 0x0A, 0x0A] @ ascii ''name,mainGenre,carb'')
       = [[], [], [], ascii ''name,mainGenre,carb'']"
    by (simp add: ascii_def)
  have f3: "trimmedFields (ascii ''name,mainGenre,carb'') = expectedHeader"
    by (simp add: text_eval)
  have n3: "trim (ascii ''name,mainGenre,carb'') \<noteq> []" by (simp add: text_eval)
  have "\<forall>k<3. trim ([[], [], [], ascii ''name,mainGenre,carb''] ! k) = []"
    by (simp add: t1 All_less_Suc numeral_3_eq_3)
  with header_rule [of "[0x0A, 0x0A, 0x0A] @ ascii ''name,mainGenre,carb''" 3] n3
  have r3: "parseMenusFromCSVText ([0x0A, 0x0A, 0x0A] @ ascii ''name,mainGenre,carb'') = Inr []"
    unfolding s3 by (simp add: f3 expectedHeader_def rowsLoop_done rowsOutcome_def)
  have s4: "splitLines (ascii ''name, mainGenre ,carb,note'') = [ascii ''name, mainGenre ,carb,note'']"
    by (simp add: ascii_def)
  have f4: "trimmedFields (ascii ''name, mainGenre ,carb,note'')
            = [ascii ''name'', ascii ''mainGenre'', ascii ''carb'', ascii ''note'']"
    by (simp add: text_eval)
  have "trim (ascii ''name, mainGenre ,carb,note'') \<noteq> []" by (simp add: text_eval)
  with header_rule [of "ascii ''name, mainGenre ,carb,note''" 0]
  have r4: "parseMenusFromCSVText (ascii ''name, mainGenre ,carb,note'') = Inr []"
    unfolding s4 by (simp add: f4 expectedHeader_def rowsLoop_done rowsOutcome_def)
  from s1 t1 r1 r2 s3 r3 r4 show ?thesis by simp
qed

text \<open>
  C7. A row whose name is empty after trimming adds no record and no error,
  whatever its other fields: the loop passes over it, the outcome is the same as
  with an empty line in its place, and the row is neither among the invalid rows
  nor among the valid ones.
\<close>

theorem empty_name_row_skipped:
  assumes "i < length lines" and "nameEmpty (lines ! i)"
  shows "rowsLoop mkId lines i menus errors = rowsLoop mkId lines (i + 1) menus errors
       \<and> rowsLoop mkId (lines[i := []]) k menus errors = rowsLoop mkId lines k menus errors
       \<and> i \<notin> set (invalidRows lines h) \<and> i \<notin> set (validRows lines h)"
proof -
  from assms(2) have s: "rowSkipped (lines ! i)" by (simp add: rowSkipped_def)
  have e: "rowSkipped []" by (simp add: rowSkipped_def trim_def)
  from s assms(1) have "rowsLoop mkId lines i menus errors = rowsLoop mkId lines (i + 1) menus errors"
    by (simp add: rowsLoop_step)
  moreover have "rowsLoop mkId (lines[i := []]) k menus errors = rowsLoop mkId lines k menus errors"
    by (rule rowsLoop_update_skipped [OF assms(1) s e])
  moreover from s have "i \<notin> set (invalidRows lines h)" "i \<notin> set (validRows lines h)"
    by (simp_all add: invalidRows_def validRows_def rowInvalid_def rowValid_def)
  ultimately show ?thesis by simp
qed

theorem empty_name_row_skipped_witness:
  "1 < length catalogSkip \<and> nameEmpty (catalogSkip ! 1)
   \<and> trimmedFields (catalogSkip ! 1) = [[], ascii ''bad'', ascii ''bad'']
   \<and> rowsLoop stableId catalogSkip 1 [] []
       = ([\<lparr>id_m = stableId (ascii ''x'') washoku kome, name = ascii ''x'',
            mainGenre = washoku, carb = kome\<rparr>], [])"
proof -
  have l: "1 < length catalogSkip" by (simp add: catalogSkip_def)
  have f: "trimmedFields (catalogSkip ! 1) = [[], ascii ''bad'', ascii ''bad'']"
    by (simp add: catalogSkip_def text_eval)
  then have n: "nameEmpty (catalogSkip ! 1)" by (simp add: nameEmpty_def elemAt_def falsy_def)
  have f2: "trimmedFields (catalogSkip ! 2) = [ascii ''x'', washoku, kome]"
    by (simp add: catalogSkip_def text_eval)
  have t2: "trim (catalogSkip ! 2) \<noteq> []" by (simp add: catalogSkip_def text_eval)
  have len: "length catalogSkip = 3" by (simp add: catalogSkip_def)
  have v2: "\<not> rowSkipped (catalogSkip ! 2)" "\<not> rowInvalid (catalogSkip ! 2)"
    unfolding row_eval f2 using t2 by (simp_all add: genre_literals ascii_def)
  have r2: "rowRecord stableId (catalogSkip ! 2)
            = \<lparr>id_m = stableId (ascii ''x'') washoku kome, name = ascii ''x'',
                mainGenre = washoku, carb = kome\<rparr>"
    unfolding rowRecord_def fieldOf_def f2 by (simp add: elemAt_def orEmpty_def)
  have "rowsLoop stableId catalogSkip 2 [] []
       = ([\<lparr>id_m = stableId (ascii ''x'') washoku kome, name = ascii ''x'',
            mainGenre = washoku, carb = kome\<rparr>], [])"
    using rowsLoop_step [of 2 catalogSkip stableId "[]" "[]"] v2 r2
    by (simp add: len rowsLoop_done)
  with empty_name_row_skipped [OF l n, of stableId "[]" "[]" 0 0] l n f show ?thesis
    by (simp add: numeral_2_eq_2)
qed

text \<open>
  C10. A row that is not blank, has a name and has fewer than three fields has
  the empty string for its missing carb, which is in neither vocabulary: the row
  is invalid, gives no record, and both loaders fail with the validation
  message, which holds the line of that row.
\<close>

theorem short_row_fails:
  assumes "findIndex (\<lambda>l. trim l \<noteq> []) (splitLines raw) = Some h"
    and "take 3 (trimmedFields (splitLines raw ! h)) = expectedHeader"
    and "h < i" and "i < length (splitLines raw)"
    and "trim (splitLines raw ! i) \<noteq> []" and "\<not> nameEmpty (splitLines raw ! i)"
    and "length (trimmedFields (splitLines raw ! i)) < 3"
  shows "fieldOf (splitLines raw ! i) 2 = [] \<and> \<not> isMainGenre [] \<and> \<not> isCarb []
       \<and> i \<in> set (invalidRows (splitLines raw) h) \<and> i \<notin> set (validRows (splitLines raw) h)
       \<and> parseMenusFromCSVText raw =
           Inl (Error (ascii ''menus.csv validation failed:'' @ [0x0A] @
                  join [0x0A] (map (\<lambda>k. rowMessage k (splitLines raw ! k))
                                   (invalidRows (splitLines raw) h))))
       \<and> loadMenusFromPublicCSV raw =
           Inl (Error (ascii ''menus.csv validation failed:'' @ [0x0A] @
                  join [0x0A] (map (\<lambda>k. rowMessage k (splitLines raw ! k))
                                   (invalidRows (splitLines raw) h))))"
proof -
  from assms(7) have f: "fieldOf (splitLines raw ! i) 2 = []"
    by (simp add: fieldOf_def elemAt_def orEmpty_def)
  note e = empty_outside_vocabularies
  from assms(5,6) f e have inv: "rowInvalid (splitLines raw ! i)"
    by (simp add: rowInvalid_def rowSkipped_def)
  with assms(3,4) have mem: "i \<in> set (invalidRows (splitLines raw) h)"
    by (simp add: invalidRows_def)
  from inv have nv: "i \<notin> set (validRows (splitLines raw) h)"
    by (simp add: validRows_def rowValid_iff)
  from mem have ne: "invalidRows (splitLines raw) h \<noteq> []" by auto
  have a: "parseMenusWith mkId raw = rowsOutcome (rowsLoop mkId (splitLines raw) (h + 1) [] [])"
    for mkId
    unfolding parseMenusWith_header assms(1) using assms(2) by simp
  show ?thesis
    unfolding parseMenusFromCSVText_def loadMenusFromPublicCSV_def a rowsOutcome_rows
    using ne f e mem nv by simp
qed

theorem short_row_fails_witness:
  "findIndex (\<lambda>l. trim l \<noteq> []) (splitLines catalogShort) = Some 0
   \<and> take 3 (trimmedFields (splitLines catalogShort ! 0)) = expectedHeader
   \<and> trimmedFields (splitLines catalogShort ! 1) = [ascii ''x'']
   \<and> parseMenusFromCSVText catalogShort =
       Inl (Error (ascii ''menus.csv validation failed:'' @ [0x0A] @ ascii ''Row 2: '' @
                   genreViolation None @ ascii ''; '' @ carbViolation None))"
proof -
  have s: "splitLines catalogShort = [ascii ''name,mainGenre,carb'', ascii ''x'']"
    by (simp add: catalogShort_def ascii_def)
  have h: "findIndex (\<lambda>l. trim l \<noteq> []) (splitLines catalogShort) = Some 0"
    unfolding s by (simp add: text_eval)
  have e: "take 3 (trimmedFields (splitLines catalogShort ! 0)) = expectedHeader"
    unfolding s by (simp add: text_eval)
  have f: "trimmedFields (splitLines catalogShort ! 1) = [ascii ''x'']"
    unfolding s by (simp add: text_eval)
  have t: "trim (splitLines catalogShort ! 1) \<noteq> []" unfolding s by (simp add: text_eval)
  have n: "\<not> nameEmpty (splitLines catalogShort ! 1)"
    unfolding nameEmpty_def f by (simp add: elemAt_def falsy_def ascii_def)
  have i: "(0::nat) < 1" "1 < length (splitLines catalogShort)"
    by (simp_all add: s)
  have c: "length (trimmedFields (splitLines catalogShort ! 1)) < 3"
    unfolding f by simp
  have r: "invalidRows (splitLines catalogShort) 0 = [1]"
    unfolding invalidRows_def s using f t n unfolding s
    by (simp add: upt_rec row_eval genre_literals ascii_def)
  have m: "rowMessage 1 (splitLines catalogShort ! 1)
           = ascii ''Row 2: '' @ genreViolation None @ ascii ''; '' @ carbViolation None"
    unfolding rowMessage_violations fieldOf_def f
    by (simp add: elemAt_def orEmpty_def empty_outside_vocabularies showNat.simps ascii_def)
  from short_row_fails [OF h e i t n c]
  have "parseMenusFromCSVText catalogShort =
           Inl (Error (ascii ''menus.csv validation failed:'' @ [0x0A] @
                  join [0x0A] (map (\<lambda>k. rowMessage k (splitLines catalogShort ! k))
                                   (invalidRows (splitLines catalogShort) 0))))"
    by blast
  then have "parseMenusFromCSVText catalogShort =
           Inl (Error (ascii ''menus.csv validation failed:'' @ [0x0A] @
                       rowMessage 1 (splitLines catalogShort ! 1)))"
    unfolding r by simp
  from this [unfolded m] h e f show ?thesis by simp
qed

end
